theory Spec2Isabelle
  imports Main "HOL-Library.Word"
begin

section \<open>The upload script \<open>image_upload.py\<close>\<close>

text \<open>
  The script is straight-line Python: it reads \<open>sys.argv\<close>, reads and base64-encodes one
  file, builds a JSON body and a header, performs one \<open>requests.post\<close> and prints the
  parsed answer. It catches nothing, so the first exception ends the run.

  Python \<open>str\<close> values are modelled as \<open>string\<close>, holding the UTF-8 code units of the
  text; \<open>bytes\<close> values are lists of 8-bit words. The file system, the HTTP exchange, the
  JSON parser of the answer and the standard output are parameters of the model.
\<close>

subsection \<open>Values and exceptions\<close>

type_synonym byte = "8 word"

text \<open>The reasons for which \<open>open(file_path, "rb")\<close> or the following \<open>read()\<close> raise.\<close>

datatype os_error =
    FileNotFoundError
  | PermissionError
  | IsADirectoryError
  | NotADirectoryError
  | OtherOSError

text \<open>
  The exceptions that the statements of the script can raise. \<open>RequestException\<close> stands
  for the errors of the connection; \<open>requests.post\<close> and \<open>print\<close> can also raise
  \<open>UnicodeEncodeError\<close>, on a header or a text that cannot be encoded.
\<close>

datatype py_exception =
    IndexError
  | OSError os_error
  | UnicodeDecodeError
  | UnicodeEncodeError
  | RequestException
  | JSONDecodeError

text \<open>
  The error names of the specification (its section 7), as a classification of the
  exceptions above. The script itself names no error.
\<close>

datatype error_kind =
    ArgumentError
  | FileAccessError
  | NetworkError
  | ResponseParseError
  | EncodingError

fun error_kind_of :: "py_exception \<Rightarrow> error_kind" where
  "error_kind_of IndexError = ArgumentError"
| "error_kind_of (OSError e) = FileAccessError"
| "error_kind_of UnicodeDecodeError = EncodingError"
| "error_kind_of UnicodeEncodeError = EncodingError"
| "error_kind_of RequestException = NetworkError"
| "error_kind_of JSONDecodeError = ResponseParseError"

subsection \<open>Indexing and splitting\<close>

text \<open>
  Python's \<open>xs[i]\<close> on a list: an index from \<open>0\<close> counts from the front, a negative one
  from the end, and anything else raises \<open>IndexError\<close>.
\<close>

definition py_index :: "'a list \<Rightarrow> int \<Rightarrow> py_exception + 'a" where
  "py_index xs i =
     (if 0 \<le> i \<and> i < int (length xs) then Inr (xs ! nat i)
      else if i < 0 \<and> - int (length xs) \<le> i then Inr (xs ! nat (int (length xs) + i))
      else Inl IndexError)"

text \<open>
  \<open>s.split(sep)\<close> for a separator of one character: the text is scanned from the left,
  \<open>cur\<close> holds the segment read so far, and every occurrence of the separator closes a
  segment (an empty one too).
\<close>

fun split_from :: "char \<Rightarrow> string \<Rightarrow> string \<Rightarrow> string list" where
  "split_from sep cur [] = [cur]"
| "split_from sep cur (c # cs) =
     (if c = sep then cur # split_from sep [] cs else split_from sep (cur @ [c]) cs)"

definition py_split :: "string \<Rightarrow> char \<Rightarrow> string list" where
  "py_split s sep = split_from sep [] s"

text \<open>Line 7: \<open>file_name = file_path.split('/')[-1]\<close>.\<close>

definition file_name :: "string \<Rightarrow> py_exception + string" where
  "file_name file_path = py_index (py_split file_path (CHR ''/'')) (- 1)"

subsection \<open>Base64 and UTF-8\<close>

text \<open>
  \<open>base64.b64encode\<close> belongs to Python's standard library; it is modelled after
  RFC 4648, section 4: every group of three bytes is read as one 24-bit number and written
  as four digits of the standard alphabet; a last group of one or two bytes is filled with
  zero bits to a multiple of six and padded with \<open>=\<close> to four characters.
\<close>

definition b64_alphabet :: string where
  "b64_alphabet = ''ABCDEFGHIJKLMNOPQRSTUVWXYZabcdefghijklmnopqrstuvwxyz0123456789+/''"

text \<open>The digit for a number; only its six low bits count.\<close>

definition b64_char :: "nat \<Rightarrow> char" where
  "b64_char n = b64_alphabet ! (n mod 64)"

definition b64_digit :: "nat \<Rightarrow> byte" where
  "b64_digit n = of_nat (of_char (b64_char n))"

definition b64_pad :: byte where
  "b64_pad = of_nat (of_char (CHR ''=''))"

fun b64encode :: "byte list \<Rightarrow> byte list" where
  "b64encode [] = []"
| "b64encode [a] =
     (let n = unat a * 16
      in [b64_digit (n div 64), b64_digit n, b64_pad, b64_pad])"
| "b64encode [a, b] =
     (let n = (unat a * 256 + unat b) * 4
      in [b64_digit (n div 4096), b64_digit (n div 64), b64_digit n, b64_pad])"
| "b64encode (a # b # c # rest) =
     (let n = unat a * 65536 + unat b * 256 + unat c
      in [b64_digit (n div 262144), b64_digit (n div 4096), b64_digit (n div 64), b64_digit n]
         @ b64encode rest)"

text \<open>
  \<open>bytes.decode('utf-8')\<close> with the default strict error handling: the bytes must be
  well-formed UTF-8 (Unicode, table 3-7: no overlong form, no surrogate, nothing above
  U+10FFFF), otherwise \<open>UnicodeDecodeError\<close> is raised. As text is kept in UTF-8 code
  units here, a successful decoding keeps the bytes.
\<close>

abbreviation to_char :: "byte \<Rightarrow> char" where
  "to_char b \<equiv> char_of (unat b)"

definition utf8_tail :: "nat \<Rightarrow> nat \<Rightarrow> nat \<Rightarrow> nat list \<Rightarrow> bool" where
  "utf8_tail lo hi k bs =
     (k \<le> length bs \<and> lo \<le> hd bs \<and> hd bs \<le> hi
      \<and> list_all (\<lambda>b. 128 \<le> b \<and> b \<le> 191) (take (k - 1) (tl bs)))"

fun utf8_valid :: "nat list \<Rightarrow> bool" where
  "utf8_valid [] = True"
| "utf8_valid (b # bs) =
     (if b < 128 then utf8_valid bs
      else if 194 \<le> b \<and> b \<le> 223 then utf8_tail 128 191 1 bs \<and> utf8_valid (drop 1 bs)
      else if b = 224 then utf8_tail 160 191 2 bs \<and> utf8_valid (drop 2 bs)
      else if b = 237 then utf8_tail 128 159 2 bs \<and> utf8_valid (drop 2 bs)
      else if 225 \<le> b \<and> b \<le> 239 then utf8_tail 128 191 2 bs \<and> utf8_valid (drop 2 bs)
      else if b = 240 then utf8_tail 144 191 3 bs \<and> utf8_valid (drop 3 bs)
      else if 241 \<le> b \<and> b \<le> 243 then utf8_tail 128 191 3 bs \<and> utf8_valid (drop 3 bs)
      else if b = 244 then utf8_tail 128 143 3 bs \<and> utf8_valid (drop 3 bs)
      else False)"

definition decode_utf8 :: "byte list \<Rightarrow> py_exception + string" where
  "decode_utf8 bs =
     (if utf8_valid (map unat bs) then Inr (map to_char bs)
      else Inl UnicodeDecodeError)"

subsection \<open>The environment\<close>

text \<open>
  The file system gives, for a name, the bytes of the regular file of that name or the
  reason for which it cannot be read.
\<close>

type_synonym file_system = "string \<Rightarrow> os_error + byte list"

text \<open>
  \<open>open(path, "rb").read()\<close>. The empty path names nothing, and a path that ends in
  \<open>/\<close> is resolved as a directory (POSIX path resolution): \<open>open\<close> raises for both,
  whatever the file system holds, with \<open>NotADirectoryError\<close> when the name is that of a
  regular file. For every other path the file system decides.
\<close>

definition open_rb :: "file_system \<Rightarrow> string \<Rightarrow> os_error + byte list" where
  "open_rb fs path =
     (if path = [] then Inl FileNotFoundError
      else if last path = CHR ''/'' then
        (case fs path of
           Inl e \<Rightarrow> Inl e
         | Inr raw \<Rightarrow> Inl NotADirectoryError)
      else fs path)"

text \<open>The values of the dictionary \<open>r_json\<close> are strings and one boolean.\<close>

datatype json_value = JString string | JBool bool

text \<open>
  The arguments of \<open>requests.post(url, json=..., headers=...)\<close>. Both dictionaries are
  kept as association lists in the order of the source.
\<close>

record request =
  url :: string
  json :: "(string \<times> json_value) list"
  headers :: "(string \<times> string) list"

record response =
  status_code :: nat
  content :: string

text \<open>
  \<open>requests.post\<close> either returns a response or raises: \<open>RequestException\<close> for
  connection refused, timeout and the like, \<open>UnicodeEncodeError\<close> for a header that cannot
  be encoded.
\<close>

type_synonym http = "request \<Rightarrow> py_exception + response"

text \<open>
  \<open>r.json()\<close> parses the content of the response; \<open>None\<close> stands for the exception
  raised on content that is not JSON. The type \<open>'j\<close> is that of parsed values.
\<close>

type_synonym 'j json_parser = "string \<Rightarrow> 'j option"

text \<open>
  \<open>print(x)\<close> either writes the value or raises before anything is written: the text
  is encoded as a whole first, and \<open>UnicodeEncodeError\<close> is raised for a text that the
  encoding of the standard output cannot represent. \<open>None\<close> stands for a value written,
  \<open>Some e\<close> for the exception.
\<close>

type_synonym 'j printer = "'j \<Rightarrow> py_exception option"

text \<open>
  What a run leaves behind: the exception that ended it (\<open>None\<close> for a normal end), the
  requests handed to \<open>requests.post\<close>, and the values written by \<open>print\<close>.
\<close>

record 'j outcome =
  raised :: "py_exception option"
  posted :: "request list"
  printed :: "'j list"

definition abort :: "py_exception \<Rightarrow> request list \<Rightarrow> 'j outcome" where
  "abort e reqs = \<lparr>raised = Some e, posted = reqs, printed = []\<rparr>"

subsection \<open>The script\<close>

text \<open>Lines 9 to 11: the file is read and encoded.\<close>

definition file_encoded :: "file_system \<Rightarrow> string \<Rightarrow> py_exception + string" where
  "file_encoded fs file_path =
     (case open_rb fs file_path of
        Inl e \<Rightarrow> Inl (OSError e)
      | Inr raw \<Rightarrow> decode_utf8 (b64encode raw))"

text \<open>Lines 13 to 19: of the five entries only \<open>sys.argv[3]\<close> can raise.\<close>

definition r_json ::
  "string list \<Rightarrow> string \<Rightarrow> string \<Rightarrow> py_exception + (string \<times> json_value) list" where
  "r_json argv name encoded =
     (case py_index argv 3 of
        Inl e \<Rightarrow> Inl e
      | Inr parent \<Rightarrow>
          Inr [(''name'', JString name),
               (''type'', JString ''image''),
               (''isPublic'', JBool True),
               (''data'', JString encoded),
               (''parentId'', JString parent)])"

text \<open>Line 20.\<close>

definition r_headers :: "string list \<Rightarrow> py_exception + (string \<times> string) list" where
  "r_headers argv =
     (case py_index argv 2 of
        Inl e \<Rightarrow> Inl e
      | Inr token \<Rightarrow> Inr [(''X-Token'', token)])"

text \<open>
  The whole script, statement by statement: an exception ends the run with what has been
  posted so far and with nothing printed. Line 22 is the call of \<open>requests.post\<close>, line
  23 parses the answer and prints the parsed value.
\<close>

definition image_upload ::
  "string list \<Rightarrow> file_system \<Rightarrow> http \<Rightarrow> 'j json_parser \<Rightarrow> 'j printer \<Rightarrow> 'j outcome"
  where
  "image_upload argv fs post parse out =
     (case py_index argv 1 of
        Inl e \<Rightarrow> abort e []
      | Inr file_path \<Rightarrow>
     (case file_name file_path of
        Inl e \<Rightarrow> abort e []
      | Inr name \<Rightarrow>
     (case file_encoded fs file_path of
        Inl e \<Rightarrow> abort e []
      | Inr encoded \<Rightarrow>
     (case r_json argv name encoded of
        Inl e \<Rightarrow> abort e []
      | Inr body \<Rightarrow>
     (case r_headers argv of
        Inl e \<Rightarrow> abort e []
      | Inr hdrs \<Rightarrow>
          (let req = \<lparr>url = ''http://0.0.0.0:5001/files'', json = body, headers = hdrs\<rparr>
           in case post req of
                Inl e \<Rightarrow> abort e [req]
              | Inr r \<Rightarrow>
                  (case parse (content r) of
                     None \<Rightarrow> abort JSONDecodeError [req]
                   | Some j \<Rightarrow>
                       (case out j of
                          Some e \<Rightarrow> abort e [req]
                        | None \<Rightarrow> \<lparr>raised = None, posted = [req], printed = [j]\<rparr>))))))))"

text \<open>
  The request that a run builds from the arguments and the bytes of the file, written out:
  the name is the last segment of the path, the data is the encoded text.
\<close>

abbreviation built_request :: "string list \<Rightarrow> byte list \<Rightarrow> request" where
  "built_request argv raw \<equiv>
     \<lparr>url = ''http://0.0.0.0:5001/files'',
      json = [(''name'', JString (last (py_split (argv ! 1) (CHR ''/'')))),
              (''type'', JString ''image''),
              (''isPublic'', JBool True),
              (''data'', JString (map to_char (b64encode raw))),
              (''parentId'', JString (argv ! 3))],
      headers = [(''X-Token'', argv ! 2)]\<rparr>"

subsection \<open>A decoder for base64\<close>

text \<open>
  The decoder of RFC 4648 that the round-trip property is stated against; the script
  itself never decodes. It accepts exactly the padded form: groups of four characters,
  padding only in the last group.
\<close>

fun index_of :: "'a \<Rightarrow> 'a list \<Rightarrow> nat option" where
  "index_of x [] = None"
| "index_of x (y # ys) = (if x = y then Some 0 else map_option Suc (index_of x ys))"

definition b64_value :: "char \<Rightarrow> nat option" where
  "b64_value c = index_of c b64_alphabet"

fun b64_values :: "string \<Rightarrow> nat list option" where
  "b64_values [] = Some []"
| "b64_values (c # cs) =
     (case b64_value c of
        None \<Rightarrow> None
      | Some v \<Rightarrow> map_option ((#) v) (b64_values cs))"

definition bytes_of :: "nat \<Rightarrow> nat \<Rightarrow> byte list" where
  "bytes_of k n = map (\<lambda>i. of_nat (n div 256 ^ (k - 1 - i))) [0..<k]"

fun b64decode :: "string \<Rightarrow> byte list option" where
  "b64decode [] = Some []"
| "b64decode (c0 # c1 # c2 # c3 # rest) =
     (if rest = [] \<and> c2 = CHR ''='' \<and> c3 = CHR ''='' then
        (case b64_values [c0, c1] of
           Some [v0, v1] \<Rightarrow> Some (bytes_of 1 ((v0 * 64 + v1) div 16))
         | _ \<Rightarrow> None)
      else if rest = [] \<and> c3 = CHR ''='' then
        (case b64_values [c0, c1, c2] of
           Some [v0, v1, v2] \<Rightarrow> Some (bytes_of 2 (((v0 * 64 + v1) * 64 + v2) div 4))
         | _ \<Rightarrow> None)
      else
        (case b64_values [c0, c1, c2, c3] of
           Some [v0, v1, v2, v3] \<Rightarrow>
             map_option ((@) (bytes_of 3 (((v0 * 64 + v1) * 64 + v2) * 64 + v3)))
               (b64decode rest)
         | _ \<Rightarrow> None))"
| "b64decode _ = None"

subsection \<open>Environments for the examples\<close>

text \<open>
  A file system with one regular file and one with one directory; a server with one
  answer and one that cannot be reached; a parser that accepts the empty object and the
  JSON string \<open>"\ud800"\<close> (an escaped lone surrogate, parsed to the text of that one code
  point); a standard output in UTF-8, which cannot encode a surrogate.
\<close>

definition one_file :: "string \<Rightarrow> byte list \<Rightarrow> file_system" where
  "one_file path raw p = (if p = path then Inr raw else Inl FileNotFoundError)"

definition one_directory :: "string \<Rightarrow> file_system" where
  "one_directory dir p =
     (if p = dir \<or> p = dir @ ''/'' then Inl IsADirectoryError else Inl FileNotFoundError)"

definition answering :: "nat \<Rightarrow> string \<Rightarrow> http" where
  "answering code txt req = Inr \<lparr>status_code = code, content = txt\<rparr>"

definition unreachable :: http where
  "unreachable req = Inl RequestException"

definition braces_only :: "string json_parser" where
  "braces_only s = (if s = ''{}'' then Some s else None)"




definition utf8_stdout :: "string printer" where
  "utf8_stdout txt =
     (if utf8_valid (map of_char txt) then None else Some UnicodeEncodeError)"

section \<open>Properties\<close>

subsection \<open>Splitting and the last segment\<close>

lemma split_from_not_Nil: "split_from sep cur s \<noteq> []"
  by (induction s arbitrary: cur) auto

lemma split_from_no_sep: "sep \<notin> set s \<Longrightarrow> split_from sep cur s = [cur @ s]"
  by (induction s arbitrary: cur) auto

lemma last_split_from:
  "sep \<notin> set n \<Longrightarrow> last (split_from sep cur (pre @ sep # n)) = n"
  by (induction pre arbitrary: cur) (auto simp: split_from_no_sep split_from_not_Nil)

lemma py_index_last: "xs \<noteq> [] \<Longrightarrow> py_index xs (- 1) = Inr (last xs)"
  by (cases xs rule: rev_cases) (auto simp: py_index_def nth_append)

lemma py_index_nat:
  "py_index xs (int k) = (if k < length xs then Inr (xs ! k) else Inl IndexError)"
  by (simp add: py_index_def)

lemma file_name_last: "file_name p = Inr (last (py_split p (CHR ''/'')))"
  by (simp add: file_name_def py_index_last py_split_def split_from_not_Nil)

lemma file_name_no_sep: "CHR ''/'' \<notin> set p \<Longrightarrow> file_name p = Inr p"
  by (simp add: file_name_last py_split_def split_from_no_sep)

lemma file_name_after_sep:
  "CHR ''/'' \<notin> set n \<Longrightarrow> file_name (pre @ CHR ''/'' # n) = Inr n"
  by (simp add: file_name_last py_split_def last_split_from)

subsection \<open>The encoded text is ASCII\<close>

lemma distinct_b64_alphabet: "distinct b64_alphabet"
  by (simp add: b64_alphabet_def)

lemma length_b64_alphabet: "length b64_alphabet = 64"
  by (simp add: b64_alphabet_def)

lemma ascii_b64_alphabet: "list_all (\<lambda>c. (of_char c :: nat) < 128) b64_alphabet"
  by (simp add: b64_alphabet_def)

lemma pad_not_in_b64_alphabet: "CHR ''='' \<notin> set b64_alphabet"
  by (simp add: b64_alphabet_def)

lemma b64_char_in_alphabet: "b64_char n \<in> set b64_alphabet"
  by (simp add: b64_char_def length_b64_alphabet)

lemma b64_char_not_pad: "b64_char n \<noteq> CHR ''=''"
  using b64_char_in_alphabet pad_not_in_b64_alphabet by metis

lemma unat_byte_of_char: "unat (of_nat (of_char c) :: byte) = of_char c"
  by (simp add: unat_of_nat)

lemma to_char_b64_digit: "to_char (b64_digit n) = b64_char n"
  by (simp add: b64_digit_def unat_byte_of_char)

lemma to_char_b64_pad: "to_char b64_pad = CHR ''=''"
  by (simp only: b64_pad_def unat_byte_of_char char_of_char)

lemma unat_b64_digit_ascii: "unat (b64_digit n) < 128"
proof -
  have "(of_char (b64_char n) :: nat) < 128"
    using ascii_b64_alphabet b64_char_in_alphabet by (auto simp: list_all_iff)
  then show ?thesis
    by (simp add: b64_digit_def unat_byte_of_char)
qed

lemma unat_b64_pad: "unat b64_pad = 61"
  by (simp add: b64_pad_def)

lemma b64encode_ascii: "list_all (\<lambda>b. unat b < 128) (b64encode bs)"
  by (induction bs rule: b64encode.induct)
    (simp_all add: Let_def unat_b64_digit_ascii unat_b64_pad)

lemma utf8_valid_ascii: "list_all (\<lambda>b. b < 128) ns \<Longrightarrow> utf8_valid ns"
  by (induction ns) simp_all

lemma decode_utf8_b64encode: "decode_utf8 (b64encode bs) = Inr (map to_char (b64encode bs))"
proof -
  have "list_all (\<lambda>b. b < 128) (map unat (b64encode bs))"
    using b64encode_ascii [of bs] by (simp add: list_all_iff)
  then show ?thesis
    by (simp add: decode_utf8_def utf8_valid_ascii)
qed

subsection \<open>Decoding what was encoded\<close>

lemma index_of_nth: "distinct xs \<Longrightarrow> i < length xs \<Longrightarrow> index_of (xs ! i) xs = Some i"
proof (induction xs arbitrary: i)
  case Nil
  then show ?case by simp
next
  case (Cons x xs)
  then show ?case by (cases i) auto
qed

lemma b64_value_char: "b64_value (b64_char n) = Some (n mod 64)"
  by (simp add: b64_value_def b64_char_def index_of_nth distinct_b64_alphabet
      length_b64_alphabet)

lemma b64_values2: "b64_values [b64_char x, b64_char y] = Some [x mod 64, y mod 64]"
  by (simp add: b64_value_char)

lemma b64_values3:
  "b64_values [b64_char x, b64_char y, b64_char z] = Some [x mod 64, y mod 64, z mod 64]"
  by (simp add: b64_value_char)

lemma b64_values4:
  "b64_values [b64_char x, b64_char y, b64_char z, b64_char u]
     = Some [x mod 64, y mod 64, z mod 64, u mod 64]"
  by (simp add: b64_value_char)

text \<open>The digits of a number below \<open>64 ^ k\<close> give the number back.\<close>

lemma sextets1: "n < 4096 \<Longrightarrow> n div 64 mod 64 * 64 + n mod 64 = (n::nat)"
proof -
  assume "n < 4096"
  then have "n div 64 < 64" by simp
  then show ?thesis by simp
qed

lemma sextets2:
  "n < 262144 \<Longrightarrow> (n div 4096 mod 64 * 64 + n div 64 mod 64) * 64 + n mod 64 = (n::nat)"
proof -
  assume "n < 262144"
  then have h: "n div 4096 < 64" by simp
  have d: "n div 4096 = n div 64 div 64" by (simp add: div_mult2_eq)
  have "n div 64 div 64 * 64 + n div 64 mod 64 = n div 64" by simp
  with h d show ?thesis by simp
qed

lemma sextets3:
  assumes "n < 16777216"
  shows "((n div 262144 mod 64 * 64 + n div 4096 mod 64) * 64 + n div 64 mod 64) * 64
           + n mod 64 = (n::nat)"
proof -
  define q1 where "q1 = n div 64"
  define q2 where "q2 = q1 div 64"
  define q3 where "q3 = q2 div 64"
  have a: "n div 4096 = q2"
    unfolding q2_def q1_def by (simp add: div_mult2_eq)
  have b: "n div 262144 = q3"
    unfolding q3_def q2_def q1_def by (simp add: div_mult2_eq)
  have "n div 262144 < 64"
    using assms by simp
  then have c: "q3 mod 64 = q3"
    using b by simp
  have e3: "q3 * 64 + q2 mod 64 = q2"
    unfolding q3_def by simp
  have e2: "q2 * 64 + q1 mod 64 = q1"
    unfolding q2_def by simp
  have e1: "q1 * 64 + n mod 64 = n"
    unfolding q1_def by simp
  show ?thesis
    unfolding a b q1_def [symmetric] c e3 e2 e1 ..
qed

text \<open>The bytes of a group of three, read back from its 24-bit number.\<close>

lemma group3_hi:
  assumes "b < 256" "c < (256::nat)"
  shows "(a * 65536 + b * 256 + c) div 65536 = a"
proof -
  have "b * 256 + c < 65536" using assms by simp
  moreover have "a * 65536 + b * 256 + c = a * 65536 + (b * 256 + c)" by simp
  ultimately show ?thesis by simp
qed

lemma group3_mid:
  assumes "b < 256" "c < (256::nat)"
  shows "(a * 65536 + b * 256 + c) div 256 = a * 256 + b"
proof -
  have "a * 65536 + b * 256 + c = (a * 256 + b) * 256 + c" by simp
  then show ?thesis using assms by simp
qed

lemma group3_lo:
  assumes "c < (256::nat)"
  shows "(a * 65536 + b * 256 + c) mod 256 = c"
proof -
  have e: "a * 65536 + b * 256 + c = c + 256 * (a * 256 + b)" by simp
  show ?thesis unfolding e using assms by (simp only: mod_mult_self2 mod_less)
qed

lemma unat_byte_less: "unat (a::byte) < 256"
  using unsigned_less [of a, where ?'a = nat] by simp

lemma byte_of_natI: "n mod 256 = unat (w::byte) \<Longrightarrow> of_nat n = w"
proof -
  assume a: "n mod 256 = unat w"
  have "unat (of_nat n :: byte) = n mod 256"
    by (simp add: unat_of_nat)
  with a have "unat (of_nat n :: byte) = unat w" by simp
  then show ?thesis by (simp only: word_unat_eq_iff [symmetric])
qed

lemma bytes_of_1: "bytes_of 1 n = [of_nat n]"
  by (simp add: bytes_of_def)

lemma bytes_of_2: "bytes_of 2 n = [of_nat (n div 256), of_nat n]"
  by (simp add: bytes_of_def upt_rec numeral_2_eq_2)

lemma bytes_of_3: "bytes_of 3 n = [of_nat (n div 65536), of_nat (n div 256), of_nat n]"
  by (simp add: bytes_of_def upt_rec numeral_3_eq_3)

lemma decode_group1:
  "b64decode [b64_char (n div 64), b64_char n, CHR ''='', CHR ''='']
     = Some (bytes_of 1 ((n div 64 mod 64 * 64 + n mod 64) div 16))"
  by (simp only: b64decode.simps b64_values2 simp_thms if_True list.case option.case)

lemma decode_group2:
  "b64decode [b64_char (n div 4096), b64_char (n div 64), b64_char n, CHR ''='']
     = Some (bytes_of 2 (((n div 4096 mod 64 * 64 + n div 64 mod 64) * 64 + n mod 64) div 4))"
  by (simp only: b64decode.simps b64_values3 b64_char_not_pad simp_thms if_True if_False
      list.case option.case)

lemma decode_group3:
  "b64decode (b64_char (n div 262144) # b64_char (n div 4096) # b64_char (n div 64)
       # b64_char n # cs)
     = map_option ((@) (bytes_of 3
         (((n div 262144 mod 64 * 64 + n div 4096 mod 64) * 64 + n div 64 mod 64) * 64
            + n mod 64)))
         (b64decode cs)"
  by (simp only: b64decode.simps b64_values4 b64_char_not_pad simp_thms if_True if_False
      list.case option.case)

lemma encode1_text:
  "map to_char (b64encode [a])
     = [b64_char (unat a * 16 div 64), b64_char (unat a * 16), CHR ''='', CHR ''='']"
  by (simp add: Let_def to_char_b64_digit to_char_b64_pad)

lemma encode2_text:
  "map to_char (b64encode [a, b])
     = [b64_char ((unat a * 256 + unat b) * 4 div 4096),
        b64_char ((unat a * 256 + unat b) * 4 div 64),
        b64_char ((unat a * 256 + unat b) * 4), CHR ''='']"
  by (simp add: Let_def to_char_b64_digit to_char_b64_pad)

lemma encode3_text:
  "map to_char (b64encode (a # b # c # rest))
     = b64_char ((unat a * 65536 + unat b * 256 + unat c) div 262144)
       # b64_char ((unat a * 65536 + unat b * 256 + unat c) div 4096)
       # b64_char ((unat a * 65536 + unat b * 256 + unat c) div 64)
       # b64_char (unat a * 65536 + unat b * 256 + unat c)
       # map to_char (b64encode rest)"
  by (simp add: Let_def to_char_b64_digit)

lemma roundtrip1: "b64decode (map to_char (b64encode [a])) = Some [a]"
proof -
  define n where "n = unat a * 16"
  have "n < 4096"
    using unat_byte_less [of a] by (simp add: n_def)
  then have "n div 64 mod 64 * 64 + n mod 64 = n"
    by (rule sextets1)
  moreover have "n div 16 = unat a"
    by (simp add: n_def)
  ultimately show ?thesis
    unfolding encode1_text n_def [symmetric]
    by (simp only: decode_group1 bytes_of_1 of_nat_unat ucast_id)
qed

lemma roundtrip2: "b64decode (map to_char (b64encode [a, b])) = Some [a, b]"
proof -
  define m where "m = unat a * 256 + unat b"
  define n where "n = m * 4"
  have "n < 262144"
    using unat_byte_less [of a] unat_byte_less [of b] by (simp add: n_def m_def)
  then have "(n div 4096 mod 64 * 64 + n div 64 mod 64) * 64 + n mod 64 = n"
    by (rule sextets2)
  moreover have "n div 4 = m"
    by (simp add: n_def)
  moreover have "of_nat (m div 256) = a"
    using unat_byte_less [of b] by (simp add: m_def)
  moreover have "of_nat m = b"
    by (rule byte_of_natI) (simp add: m_def unat_byte_less)
  ultimately show ?thesis
    unfolding encode2_text m_def [symmetric] n_def [symmetric]
    by (simp only: decode_group2 bytes_of_2)
qed

lemma roundtrip3:
  "b64decode (map to_char (b64encode (a # b # c # rest)))
     = map_option ((@) [a, b, c]) (b64decode (map to_char (b64encode rest)))"
proof -
  define n where "n = unat a * 65536 + unat b * 256 + unat c"
  have "n < 16777216"
    using unat_byte_less [of a] unat_byte_less [of b] unat_byte_less [of c]
    by (simp add: n_def)
  then have "((n div 262144 mod 64 * 64 + n div 4096 mod 64) * 64 + n div 64 mod 64) * 64
           + n mod 64 = n"
    by (rule sextets3)
  moreover have "of_nat (n div 65536) = a"
    unfolding n_def
    by (simp only: group3_hi [OF unat_byte_less unat_byte_less] of_nat_unat ucast_id)
  moreover have "of_nat (n div 256) = b"
    unfolding n_def group3_mid [OF unat_byte_less unat_byte_less]
    by (rule byte_of_natI) (simp add: unat_byte_less)
  moreover have "of_nat n = c"
    unfolding n_def by (rule byte_of_natI) (rule group3_lo [OF unat_byte_less])
  ultimately show ?thesis
    unfolding encode3_text n_def [symmetric]
    by (simp only: decode_group3 bytes_of_3)
qed

lemma b64decode_b64encode: "b64decode (map to_char (b64encode bs)) = Some bs"
proof (induction bs rule: b64encode.induct)
  case 1
  show ?case by simp
next
  case (2 a)
  show ?case by (rule roundtrip1)
next
  case (3 a b)
  show ?case by (rule roundtrip2)
next
  case (4 a b c rest)
  then show ?case by (simp only: roundtrip3 option.map append.simps)
qed

lemma file_encoded_readable:
  "open_rb fs p = Inr raw \<Longrightarrow> file_encoded fs p = Inr (map to_char (b64encode raw))"
  by (simp add: file_encoded_def decode_utf8_b64encode)

lemma file_encoded_unreadable:
  "open_rb fs p = Inl e \<Longrightarrow> file_encoded fs p = Inl (OSError e)"
  by (simp add: file_encoded_def)

lemma open_rb_directory_path:
  "p = [] \<or> last p = CHR ''/'' \<Longrightarrow> \<exists>e. open_rb fs p = Inl e"
  by (auto simp: open_rb_def split: sum.splits)

lemma open_rb_plain_path: "p \<noteq> [] \<Longrightarrow> last p \<noteq> CHR ''/'' \<Longrightarrow> open_rb fs p = fs p"
  by (simp add: open_rb_def)

subsection \<open>The runs of the script, case by case\<close>

lemma py_index_argv:
  "py_index xs 1 = (if 1 < length xs then Inr (xs ! 1) else Inl IndexError)"
  "py_index xs 2 = (if 2 < length xs then Inr (xs ! 2) else Inl IndexError)"
  "py_index xs 3 = (if 3 < length xs then Inr (xs ! 3) else Inl IndexError)"
  using py_index_nat [of xs 1] py_index_nat [of xs 2] py_index_nat [of xs 3] by simp_all

lemma run_no_path:
  "length argv < 2 \<Longrightarrow> image_upload argv fs post parse out = abort IndexError []"
  by (simp add: image_upload_def py_index_argv)

lemma run_unreadable:
  "2 \<le> length argv \<Longrightarrow> open_rb fs (argv ! 1) = Inl e
     \<Longrightarrow> image_upload argv fs post parse out = abort (OSError e) []"
  by (simp add: image_upload_def py_index_argv file_name_last file_encoded_unreadable)

lemma run_no_parent:
  "2 \<le> length argv \<Longrightarrow> length argv < 4 \<Longrightarrow> open_rb fs (argv ! 1) = Inr raw
     \<Longrightarrow> image_upload argv fs post parse out = abort IndexError []"
  by (simp add: image_upload_def py_index_argv file_name_last file_encoded_readable r_json_def)

lemma run_posts:
  "4 \<le> length argv \<Longrightarrow> open_rb fs (argv ! 1) = Inr raw
     \<Longrightarrow> image_upload argv fs post parse out =
        (case post (built_request argv raw) of
           Inl e \<Rightarrow> abort e [built_request argv raw]
         | Inr r \<Rightarrow>
             (case parse (content r) of
                None \<Rightarrow> abort JSONDecodeError [built_request argv raw]
              | Some j \<Rightarrow>
                  (case out j of
                     Some e \<Rightarrow> abort e [built_request argv raw]
                   | None \<Rightarrow>
                       \<lparr>raised = None, posted = [built_request argv raw], printed = [j]\<rparr>)))"
  by (simp add: image_upload_def py_index_argv file_name_last file_encoded_readable r_json_def
      r_headers_def Let_def cong: option.case_cong sum.case_cong)

lemma run_cases:
  obtains (no_path) "length argv < 2"
      "image_upload argv fs post parse out = abort IndexError []"
  | (unreadable) e where "2 \<le> length argv" "open_rb fs (argv ! 1) = Inl e"
      "image_upload argv fs post parse out = abort (OSError e) []"
  | (no_parent) raw where "2 \<le> length argv" "length argv < 4"
      "open_rb fs (argv ! 1) = Inr raw"
      "image_upload argv fs post parse out = abort IndexError []"
  | (no_answer) raw e where "4 \<le> length argv" "open_rb fs (argv ! 1) = Inr raw"
      "post (built_request argv raw) = Inl e"
      "image_upload argv fs post parse out = abort e [built_request argv raw]"
  | (no_json) raw r where "4 \<le> length argv" "open_rb fs (argv ! 1) = Inr raw"
      "post (built_request argv raw) = Inr r" "parse (content r) = None"
      "image_upload argv fs post parse out = abort JSONDecodeError [built_request argv raw]"
  | (not_printed) raw r j e where "4 \<le> length argv" "open_rb fs (argv ! 1) = Inr raw"
      "post (built_request argv raw) = Inr r" "parse (content r) = Some j" "out j = Some e"
      "image_upload argv fs post parse out = abort e [built_request argv raw]"
  | (printed) raw r j where "4 \<le> length argv" "open_rb fs (argv ! 1) = Inr raw"
      "post (built_request argv raw) = Inr r" "parse (content r) = Some j" "out j = None"
      "image_upload argv fs post parse out
         = \<lparr>raised = None, posted = [built_request argv raw], printed = [j]\<rparr>"
proof (cases "length argv < 2")
  case True
  then show ?thesis using no_path run_no_path by blast
next
  case long: False
  show ?thesis
  proof (cases "open_rb fs (argv ! 1)")
    case (Inl e)
    with long show ?thesis using unreadable run_unreadable by force
  next
    case readable: (Inr raw)
    show ?thesis
    proof (cases "length argv < 4")
      case True
      with long readable show ?thesis using no_parent run_no_parent by force
    next
      case False
      then have four: "4 \<le> length argv" by simp
      note run = run_posts [of argv fs raw post parse out, OF four readable]
      show ?thesis
      proof (cases "post (built_request argv raw)")
        case (Inl e)
        with run four readable show ?thesis using no_answer by simp
      next
        case answer: (Inr r)
        show ?thesis
        proof (cases "parse (content r)")
          case None
          with run four readable answer show ?thesis using no_json by simp
        next
          case parsed: (Some j)
          show ?thesis
          proof (cases "out j")
            case None
            with run four readable answer parsed show ?thesis using printed by simp
          next
            case (Some e)
            with run four readable answer parsed show ?thesis using not_printed by simp
          qed
        qed
      qed
    qed
  qed
qed

lemma posted_request:
  assumes "req \<in> set (posted (image_upload argv fs post parse out))"
  obtains raw where "4 \<le> length argv" "open_rb fs (argv ! 1) = Inr raw"
    "req = built_request argv raw" "posted (image_upload argv fs post parse out) = [req]"
  using assms by (cases argv fs post parse out rule: run_cases) (auto simp: abort_def)

lemma posted_at_most_one: "length (posted (image_upload argv fs post parse out)) \<le> 1"
  by (cases argv fs post parse out rule: run_cases) (auto simp: abort_def)

lemma posted_when_readable:
  assumes "4 \<le> length argv" "open_rb fs (argv ! 1) = Inr raw"
  shows "posted (image_upload argv fs post parse out) = [built_request argv raw]"
  using assms by (cases argv fs post parse out rule: run_cases) (auto simp: abort_def)

lemma last_not_sep: "sep \<notin> set n \<Longrightarrow> (n = [] \<longleftrightarrow> last (pre @ sep # n) = sep)"
  by (cases n rule: rev_cases) auto

lemma file_encoded_example:
  "file_encoded (one_file ''pic.png'' [255, 216, 255, 224, 0]) ''pic.png'' = Inr ''/9j/4AA=''"
  by (simp add: file_encoded_readable open_rb_def one_file_def Let_def to_char_b64_digit
      to_char_b64_pad b64_char_def b64_alphabet_def)




section \<open>The claims\<close>

text \<open>
  Claim C1 (round trip of the encoding). When the script is given three arguments and the
  file at \<open>filePath\<close> holds the bytes \<open>B\<close>, exactly one request is posted, its field
  \<open>data\<close> is the text computed in lines 9 to 11, and decoding that text from base64 gives
  exactly \<open>B\<close>.
\<close>

theorem data_decodes_to_file_contents:
  assumes "4 \<le> length argv" and "open_rb fs (argv ! 1) = Inr B"
  shows "\<exists>req d. posted (image_upload argv fs post parse out) = [req]
           \<and> map_of (json req) ''data'' = Some (JString d)
           \<and> file_encoded fs (argv ! 1) = Inr d
           \<and> b64decode d = Some B"
proof -
  let ?d = "map to_char (b64encode B)"
  have "posted (image_upload argv fs post parse out) = [built_request argv B]"
    using assms by (rule posted_when_readable)
  moreover have "map_of (json (built_request argv B)) ''data'' = Some (JString ?d)"
    by simp
  moreover have "file_encoded fs (argv ! 1) = Inr ?d"
    using assms(2) by (rule file_encoded_readable)
  moreover have "b64decode ?d = Some B"
    by (rule b64decode_b64encode)
  ultimately show ?thesis by blast
qed

theorem data_decodes_to_file_contents_witness:
  "\<exists>req d. posted (image_upload [''image_upload.py'', ''pic.png'', ''tok'', ''7'']
                 (one_file ''pic.png'' [255, 216, 255, 224, 0]) unreachable braces_only
                 utf8_stdout) = [req]
     \<and> map_of (json req) ''data'' = Some (JString d)
     \<and> file_encoded (one_file ''pic.png'' [255, 216, 255, 224, 0]) ''pic.png'' = Inr d
     \<and> b64decode d = Some [255, 216, 255, 224, 0]"
  using data_decodes_to_file_contents [of "[''image_upload.py'', ''pic.png'', ''tok'', ''7'']"
      "one_file ''pic.png'' [255, 216, 255, 224, 0]" "[255, 216, 255, 224, 0]"
      unreachable braces_only utf8_stdout]
  by (simp add: open_rb_def one_file_def)

text \<open>
  Claim C2 (argument forwarding and shape of the body). In a run with three arguments at
  most one request is posted, and exactly one when the file can be read. Every posted
  request has the header \<open>X-Token\<close> with the second argument as it is, and a body with
  exactly the keys \<open>name\<close>, \<open>type\<close>, \<open>isPublic\<close>, \<open>data\<close>, \<open>parentId\<close>, where
  \<open>type\<close> is the string \<open>image\<close>, \<open>isPublic\<close> is true and \<open>parentId\<close> is the third
  argument as it is.
\<close>

theorem request_carries_token_and_five_fields:
  assumes "4 \<le> length argv"
  shows "length (posted (image_upload argv fs post parse out)) \<le> 1
    \<and> (\<forall>req \<in> set (posted (image_upload argv fs post parse out)).
          headers req = [(''X-Token'', argv ! 2)]
        \<and> map fst (json req) = [''name'', ''type'', ''isPublic'', ''data'', ''parentId'']
        \<and> map_of (json req) ''type'' = Some (JString ''image'')
        \<and> map_of (json req) ''isPublic'' = Some (JBool True)
        \<and> map_of (json req) ''parentId'' = Some (JString (argv ! 3)))
    \<and> ((\<exists>raw. open_rb fs (argv ! 1) = Inr raw)
          \<longrightarrow> length (posted (image_upload argv fs post parse out)) = 1)"
proof (intro conjI ballI impI)
  show "length (posted (image_upload argv fs post parse out)) \<le> 1"
    by (rule posted_at_most_one)
next
  assume "\<exists>raw. open_rb fs (argv ! 1) = Inr raw"
  then show "length (posted (image_upload argv fs post parse out)) = 1"
    using assms posted_when_readable [of argv fs _ post parse out] by auto
next
  fix req
  assume "req \<in> set (posted (image_upload argv fs post parse out))"
  then obtain raw where req: "req = built_request argv raw"
    by (rule posted_request)
  show "headers req = [(''X-Token'', argv ! 2)]"
    and "map fst (json req) = [''name'', ''type'', ''isPublic'', ''data'', ''parentId'']"
    and "map_of (json req) ''type'' = Some (JString ''image'')"
    and "map_of (json req) ''isPublic'' = Some (JBool True)"
    and "map_of (json req) ''parentId'' = Some (JString (argv ! 3))"
    by (simp_all add: req)
qed

theorem request_carries_token_and_five_fields_witness:
  "length (posted (image_upload [''image_upload.py'', ''pic.png'', ''s3cr3t +/='', ''7'']
             (one_file ''pic.png'' [1, 2, 3]) (answering 500 ''oops'') braces_only
             utf8_stdout)) = 1
   \<and> list_all (\<lambda>req. headers req = [(''X-Token'', ''s3cr3t +/='')]
         \<and> map fst (json req) = [''name'', ''type'', ''isPublic'', ''data'', ''parentId'']
         \<and> map_of (json req) ''type'' = Some (JString ''image'')
         \<and> map_of (json req) ''isPublic'' = Some (JBool True)
         \<and> map_of (json req) ''parentId'' = Some (JString ''7''))
       (posted (image_upload [''image_upload.py'', ''pic.png'', ''s3cr3t +/='', ''7'']
             (one_file ''pic.png'' [1, 2, 3]) (answering 500 ''oops'') braces_only
             utf8_stdout))"
  using request_carries_token_and_five_fields
      [of "[''image_upload.py'', ''pic.png'', ''s3cr3t +/='', ''7'']"
        "one_file ''pic.png'' [1, 2, 3]" "answering 500 ''oops''" braces_only utf8_stdout]
  by (simp add: open_rb_def one_file_def list_all_iff)

text \<open>
  Claim C3 (name extraction). The name is the text after the last \<open>/\<close> of the path, and
  the whole path when it has no \<open>/\<close>; it is the value of the field \<open>name\<close> of every
  posted request. The witness has the two examples of the specification.
\<close>

theorem name_is_last_segment:
  "(CHR ''/'' \<notin> set n \<longrightarrow> file_name (pre @ CHR ''/'' # n) = Inr n)
   \<and> (CHR ''/'' \<notin> set p \<longrightarrow> file_name p = Inr p)
   \<and> (\<forall>req \<in> set (posted (image_upload argv fs post parse out)).
         \<exists>name. file_name (argv ! 1) = Inr name
           \<and> map_of (json req) ''name'' = Some (JString name))"
proof (intro conjI impI ballI)
  fix req
  assume "req \<in> set (posted (image_upload argv fs post parse out))"
  then obtain raw where "req = built_request argv raw"
    by (rule posted_request)
  then show "\<exists>name. file_name (argv ! 1) = Inr name
           \<and> map_of (json req) ''name'' = Some (JString name)"
    by (simp add: file_name_last)
qed (simp_all add: file_name_after_sep file_name_no_sep)

theorem name_is_last_segment_witness:
  "file_name ''a/b/c/photo.png'' = Inr ''photo.png''
   \<and> file_name ''photo.png'' = Inr ''photo.png''"
  using name_is_last_segment [of "''photo.png''" "''a/b/c''" "''photo.png''"
      "[]" "one_file [] []" unreachable braces_only utf8_stdout]
  by simp

text \<open>
  Claim C4 (missing file). When the path is given and the file cannot be read (it does not
  exist, is unreadable or is a directory), the run ends with the \<open>OSError\<close> of \<open>open\<close>,
  which the specification calls \<open>FileAccessError\<close>; nothing is posted and nothing is
  printed.
\<close>

theorem unreadable_file_aborts_before_post:
  assumes "2 \<le> length argv" and "open_rb fs (argv ! 1) = Inl e"
  shows "raised (image_upload argv fs post parse out) = Some (OSError e)
    \<and> error_kind_of (OSError e) = FileAccessError
    \<and> posted (image_upload argv fs post parse out) = []
    \<and> printed (image_upload argv fs post parse out) = []"
  using run_unreadable [of argv fs e post parse out, OF assms] by (simp add: abort_def)

theorem unreadable_file_aborts_before_post_witness:
  "raised (image_upload [''image_upload.py'', ''missing.png'', ''tok'', ''7'']
       (one_file ''other.png'' [1]) (answering 200 ''{}'') braces_only utf8_stdout)
     = Some (OSError FileNotFoundError)
   \<and> error_kind_of (OSError FileNotFoundError) = FileAccessError
   \<and> posted (image_upload [''image_upload.py'', ''missing.png'', ''tok'', ''7'']
       (one_file ''other.png'' [1]) (answering 200 ''{}'') braces_only utf8_stdout) = []
   \<and> printed (image_upload [''image_upload.py'', ''missing.png'', ''tok'', ''7'']
       (one_file ''other.png'' [1]) (answering 200 ''{}'') braces_only utf8_stdout) = []"
  using unreadable_file_aborts_before_post
      [of "[''image_upload.py'', ''missing.png'', ''tok'', ''7'']" "one_file ''other.png'' [1]"
        FileNotFoundError "answering 200 ''{}''" braces_only utf8_stdout]
  by (simp add: open_rb_def one_file_def)









text \<open>
  Claim C8 (too few arguments), as amended. With fewer than three arguments nothing is posted
  and nothing is printed, and the run ends with an exception: \<open>IndexError\<close> (the
  \<open>ArgumentError\<close> of the specification) when no path is given or when the file was read,
  but the \<open>OSError\<close> of \<open>open\<close> (\<open>FileAccessError\<close>) when a path is given and the file
  cannot be read, since the file is opened before \<open>sys.argv[3]\<close> is looked at. The claim
  as stated, that the error is always \<open>ArgumentError\<close>, fails for one argument that names
  a missing file.
\<close>

theorem too_few_arguments_abort_without_post:
  assumes "length argv < 4"
  shows "posted (image_upload argv fs post parse out) = []
    \<and> printed (image_upload argv fs post parse out) = []
    \<and> (\<exists>x. raised (image_upload argv fs post parse out) = Some x
          \<and> x = (if length argv < 2 then IndexError
                   else case open_rb fs (argv ! 1) of
                          Inl e \<Rightarrow> OSError e
                        | Inr raw \<Rightarrow> IndexError)
          \<and> error_kind_of x = (if length argv < 2 then ArgumentError
                   else case open_rb fs (argv ! 1) of
                          Inl e \<Rightarrow> FileAccessError
                        | Inr raw \<Rightarrow> ArgumentError))"
  using assms by (cases argv fs post parse out rule: run_cases) (auto simp: abort_def)

theorem too_few_arguments_abort_without_post_witness:
  "posted (image_upload [''image_upload.py'', ''pic.png'', ''tok'']
       (one_file ''pic.png'' [1, 2, 3]) (answering 200 ''{}'') braces_only utf8_stdout) = []
   \<and> printed (image_upload [''image_upload.py'', ''pic.png'', ''tok'']
       (one_file ''pic.png'' [1, 2, 3]) (answering 200 ''{}'') braces_only utf8_stdout) = []
   \<and> raised (image_upload [''image_upload.py'', ''pic.png'', ''tok'']
       (one_file ''pic.png'' [1, 2, 3]) (answering 200 ''{}'') braces_only utf8_stdout)
     = Some IndexError"
  using too_few_arguments_abort_without_post
      [of "[''image_upload.py'', ''pic.png'', ''tok'']" "one_file ''pic.png'' [1, 2, 3]"
        "answering 200 ''{}''" braces_only utf8_stdout]
  by (simp add: open_rb_def one_file_def)

theorem missing_file_with_one_argument_counterexample:
  "length [''image_upload.py'', ''missing.png''] < 4
   \<and> raised (image_upload [''image_upload.py'', ''missing.png'']
        (one_file ''other.png'' [1]) unreachable braces_only utf8_stdout)
      = Some (OSError FileNotFoundError)
   \<and> error_kind_of (OSError FileNotFoundError) \<noteq> ArgumentError"
  by (simp add: run_unreadable open_rb_def one_file_def abort_def)

text \<open>
  Claim C9 (non-empty name), as amended. The name is empty exactly when the path is empty or
  ends in \<open>/\<close>; so it is non-empty for every non-empty path that does not end in \<open>/\<close>.
  The claim as stated fails for the path \<open>a/\<close>, which has the non-empty segment \<open>a\<close>
  and the empty name.
\<close>

theorem name_empty_iff_trailing_separator:
  "\<exists>name. file_name p = Inr name \<and> (name = [] \<longleftrightarrow> p = [] \<or> last p = CHR ''/'')"
proof (cases "CHR ''/'' \<in> set p")
  case True
  then obtain pre n where p: "p = pre @ CHR ''/'' # n" and n: "CHR ''/'' \<notin> set n"
    by (auto dest: split_list_last)
  from n have "file_name p = Inr n"
    unfolding p by (rule file_name_after_sep)
  moreover have "n = [] \<longleftrightarrow> p = [] \<or> last p = CHR ''/''"
    using last_not_sep [OF n, of pre] by (simp add: p)
  ultimately show ?thesis by blast
next
  case False
  then have "file_name p = Inr p"
    by (rule file_name_no_sep)
  moreover from False have "p \<noteq> [] \<Longrightarrow> last p \<noteq> CHR ''/''"
    using last_in_set by metis
  ultimately show ?thesis by auto
qed

theorem name_empty_iff_trailing_separator_witness:
  "\<exists>name. file_name ''a/b'' = Inr name \<and> name \<noteq> []"
  using name_empty_iff_trailing_separator [of "''a/b''"] by simp

theorem trailing_separator_counterexample:
  "''a'' \<in> set (py_split ''a/'' (CHR ''/'')) \<and> ''a'' \<noteq> [] \<and> file_name ''a/'' = Inr []"
  by (simp add: file_name_last py_split_def)

text \<open>
  Claim C10 (only \<open>/\<close> separates; a trailing \<open>/\<close> gives the empty name), as amended. A
  path that ends in \<open>/\<close> has the empty name, while a path without \<open>/\<close> is its own name
  whatever other characters it has. But no request is built or sent for a path that ends
  in \<open>/\<close>: such a path is resolved as a directory, so \<open>open\<close> raises on line 10 and the
  run ends with its \<open>OSError\<close>, nothing posted and nothing printed; the empty name never
  reaches a request. The claim as stated, that the request is still sent with the empty
  name, fails for the path \<open>photos/\<close>.
\<close>

theorem trailing_slash_gives_empty_name_and_no_post:
  assumes "2 \<le> length argv" and "argv ! 1 = dir @ ''/''"
  shows "file_name (argv ! 1) = Inr []
    \<and> (\<forall>q. CHR ''/'' \<notin> set q \<longrightarrow> file_name q = Inr q)
    \<and> (\<exists>e. raised (image_upload argv fs post parse out) = Some (OSError e))
    \<and> posted (image_upload argv fs post parse out) = []
    \<and> printed (image_upload argv fs post parse out) = []"
proof -
  have name: "file_name (argv ! 1) = Inr []"
    unfolding assms(2) using file_name_after_sep [of "[]" dir] by simp
  have "last (argv ! 1) = CHR ''/''"
    unfolding assms(2) by simp
  then obtain e where "open_rb fs (argv ! 1) = Inl e"
    using open_rb_directory_path [of "argv ! 1" fs] by blast
  with assms(1) have "image_upload argv fs post parse out = abort (OSError e) []"
    by (rule run_unreadable)
  with name show ?thesis
    by (simp add: abort_def file_name_no_sep)
qed

theorem trailing_slash_gives_empty_name_and_no_post_witness:
  "file_name ''photos/'' = Inr []
   \<and> raised (image_upload [''image_upload.py'', ''photos/'', ''tok'', ''7'']
       (one_file ''photos/'' [1, 2, 3]) (answering 200 ''{}'') braces_only utf8_stdout)
     = Some (OSError NotADirectoryError)
   \<and> posted (image_upload [''image_upload.py'', ''photos/'', ''tok'', ''7'']
       (one_file ''photos/'' [1, 2, 3]) (answering 200 ''{}'') braces_only utf8_stdout) = []
   \<and> printed (image_upload [''image_upload.py'', ''photos/'', ''tok'', ''7'']
       (one_file ''photos/'' [1, 2, 3]) (answering 200 ''{}'') braces_only utf8_stdout) = []"
proof -
  let ?argv = "[''image_upload.py'', ''photos/'', ''tok'', ''7'']"
  let ?fs = "one_file ''photos/'' [1, 2, 3]"
  have "open_rb ?fs (?argv ! 1) = Inl NotADirectoryError"
    by (simp add: open_rb_def one_file_def)
  then have "raised (image_upload ?argv ?fs (answering 200 ''{}'') braces_only utf8_stdout)
      = Some (OSError NotADirectoryError)"
    by (simp add: run_unreadable abort_def)
  then show ?thesis
    using trailing_slash_gives_empty_name_and_no_post [of ?argv "''photos''" ?fs
        "answering 200 ''{}''" braces_only utf8_stdout]
    by simp
qed

theorem trailing_slash_never_posted_counterexample:
  "last ''photos/'' = CHR ''/''
   \<and> file_name ''photos/'' = Inr []
   \<and> raised (image_upload [''image_upload.py'', ''photos/'', ''tok'', ''7'']
       (one_directory ''photos'') (answering 200 ''{}'') braces_only utf8_stdout)
     = Some (OSError IsADirectoryError)
   \<and> posted (image_upload [''image_upload.py'', ''photos/'', ''tok'', ''7'']
       (one_directory ''photos'') (answering 200 ''{}'') braces_only utf8_stdout) = []"
proof -
  let ?argv = "[''image_upload.py'', ''photos/'', ''tok'', ''7'']"
  have "open_rb (one_directory ''photos'') (?argv ! 1) = Inl IsADirectoryError"
    by (simp add: open_rb_def one_directory_def)
  then have "image_upload ?argv (one_directory ''photos'') (answering 200 ''{}'') braces_only
      utf8_stdout = abort (OSError IsADirectoryError) []"
    by (simp add: run_unreadable)
  then show ?thesis
    by (simp add: abort_def file_name_last py_split_def)
qed

end
